theory Spec2Isabelle
  imports Main "HOL-Library.Word"
begin

section \<open>Go values: bytes, slices, panics and returned errors\<close>

text \<open>
  The decoders of the repository take a Go byte slice \<open>b []byte\<close> and return a pair
  (object, error). A byte is an 8-bit word; a slice is modelled by the list of its
  \<open>len(b)\<close> bytes, with \<open>cap(b) = len(b)\<close> (a buffer holding exactly one message).
  A Go call ends in one of three ways, and the model keeps them apart:
  \<^item> it returns the object and a nil error: \<open>Inr obj\<close>;
  \<^item> it returns nil and a non-nil error: \<open>Inl (Error e)\<close>;
  \<^item> it does not return, because an index or slice expression is out of range and the
    runtime panics: \<open>Inl (Panic p)\<close>.
\<close>

type_synonym byte = "8 word"

datatype panic =
    IndexOutOfRange nat nat
  | SliceBoundsOutOfRange nat nat

text \<open>
  The errors the visible source builds with \<open>fmt.Errorf\<close>, one constructor per format
  string, carrying the value the format prints:
  \<^item> \<open>OpenLengthInvalid n\<close>: "BGP Open Message length %d is invalid";
  \<^item> \<open>InvalidMessageType t\<close>: "invalid message type %d for BGP Open Message";
  \<^item> \<open>InvalidMessageVersion v\<close>: "invalid message version %d for BGP Open Message";
  \<^item> \<open>NotFound\<close>: "not found".
  \<open>TruncatedBuffer\<close>, \<open>MalformedTLV\<close> and \<open>MalformedCapability\<close> are the error kinds the
  specification gives the TLV scanner; only the scanner modelled from the specification
  below returns them.
\<close>

datatype err =
    OpenLengthInvalid nat
  | InvalidMessageType byte
  | InvalidMessageVersion byte
  | NotFound
  | TruncatedBuffer nat nat
  | MalformedTLV nat nat
  | MalformedCapability

datatype failure = Panic panic | Error err

text \<open>\<open>b[p]\<close>: the runtime checks \<open>p < len(b)\<close> and panics otherwise.\<close>

definition index :: "byte list \<Rightarrow> nat \<Rightarrow> failure + byte" where
  "index b p = (if p < length b then Inr (b ! p) else Inl (Panic (IndexOutOfRange p (length b))))"

text \<open>
  \<open>b[lo:hi]\<close>: the runtime checks \<open>hi \<le> cap(b)\<close>, then \<open>lo \<le> hi\<close>, and panics
  otherwise. \<open>b[lo:]\<close> is \<open>b[lo:len(b)]\<close>.
\<close>

definition slice :: "byte list \<Rightarrow> nat \<Rightarrow> nat \<Rightarrow> failure + byte list" where
  "slice b lo hi =
     (if length b < hi then Inl (Panic (SliceBoundsOutOfRange hi (length b)))
      else if hi < lo then Inl (Panic (SliceBoundsOutOfRange lo hi))
      else Inr (take (hi - lo) (drop lo b)))"

definition slice_from :: "byte list \<Rightarrow> nat \<Rightarrow> failure + byte list" where
  "slice_from b lo = slice b lo (length b)"

section \<open>MSD type/value pairs (pkg/base/msd-tv.go)\<close>

record MSDTV =
  Type :: byte
  Value :: byte

text \<open>
  The loop of \<open>UnmarshalMSDTV\<close>: \<open>for p := 0; p < len(b); { ... }\<close> with the cursor
  \<open>p\<close> and the slice \<open>tvs\<close> built so far. Each round reads \<open>b[p]\<close>, increments,
  reads \<open>b[p]\<close> again, increments, and appends the tuple.
\<close>

function MSDTV_loop :: "byte list \<Rightarrow> nat \<Rightarrow> MSDTV list \<Rightarrow> failure + MSDTV list" where
  "MSDTV_loop b p tvs =
     (if p < length b then
        (case index b p of
           Inl e \<Rightarrow> Inl e
         | Inr t \<Rightarrow>
            (case index b (p + 1) of
               Inl e \<Rightarrow> Inl e
             | Inr v \<Rightarrow> MSDTV_loop b (p + 2) (tvs @ [\<lparr>MSDTV.Type = t, MSDTV.Value = v\<rparr>])))
      else Inr tvs)"
  by pat_completeness auto
termination
  by (relation "measure (\<lambda>(b, p, tvs). length b - p)") auto

declare MSDTV_loop.simps [simp del]

definition UnmarshalMSDTV :: "byte list \<Rightarrow> failure + MSDTV list" where
  "UnmarshalMSDTV b = MSDTV_loop b 0 []"

text \<open>The pairs of a byte list, two bytes at a time; a dangling last byte gives no pair.\<close>

fun pairs :: "byte list \<Rightarrow> MSDTV list" where
  "pairs (t # v # rest) = \<lparr>MSDTV.Type = t, MSDTV.Value = v\<rparr> # pairs rest"
| "pairs rest = []"

section \<open>Big-endian integers (encoding/binary)\<close>

text \<open>
  \<open>binary.BigEndian.Uint16(v)\<close> and \<open>Uint32(v)\<close> of the Go standard library first
  evaluate \<open>v[1]\<close> (\<open>v[3]\<close>) as a bounds check, then combine the leading bytes, the
  first byte being the most significant.
\<close>

definition be16 :: "byte \<Rightarrow> byte \<Rightarrow> 16 word" where
  "be16 hi lo = or (ucast lo) (push_bit 8 (ucast hi))"

definition be32 :: "byte \<Rightarrow> byte \<Rightarrow> byte \<Rightarrow> byte \<Rightarrow> 32 word" where
  "be32 b0 b1 b2 b3 =
     or (or (or (ucast b3) (push_bit 8 (ucast b2))) (push_bit 16 (ucast b1)))
        (push_bit 24 (ucast b0))"

definition BigEndian_Uint16 :: "byte list \<Rightarrow> failure + 16 word" where
  "BigEndian_Uint16 v =
     (case index v 1 of Inl e \<Rightarrow> Inl e | Inr lo \<Rightarrow> Inr (be16 (v ! 0) lo))"

definition BigEndian_Uint32 :: "byte list \<Rightarrow> failure + 32 word" where
  "BigEndian_Uint32 v =
     (case index v 3 of Inl e \<Rightarrow> Inl e | Inr b3 \<Rightarrow> Inr (be32 (v ! 0) (v ! 1) (v ! 2) b3))"

text \<open>
  The builtin \<open>copy(dst, src)\<close> overwrites the first \<open>min(len(dst), len(src))\<close> bytes of
  \<open>dst\<close>; the model returns the new contents of \<open>dst\<close>.
\<close>

definition copy :: "byte list \<Rightarrow> byte list \<Rightarrow> byte list" where
  "copy dst src = take (length dst) src @ drop (length src) dst"

section \<open>SR Local Block (package sr)\<close>

text \<open>
  \<open>LocalBlock\<close> holds the flags byte and a slice of \<open>LocalBlockTLV\<close>. The type
  \<open>LocalBlockTLV\<close> and the function \<open>UnmarshalSRLocalBlockTLV\<close> are not among the
  source files: the element type is the type parameter \<open>'tlv\<close> and the function is the
  first argument of the decoder.
\<close>

record 'tlv LocalBlock =
  Flags :: byte
  TLV :: "'tlv list"

definition UnmarshalSRLocalBlock ::
  "(byte list \<Rightarrow> failure + 'tlv list) \<Rightarrow> byte list \<Rightarrow> failure + 'tlv LocalBlock" where
  "UnmarshalSRLocalBlock UnmarshalSRLocalBlockTLV b =
     (case index b 0 of
        Inl e \<Rightarrow> Inl e
      | Inr flags \<Rightarrow>
         (case slice_from b 2 of
            Inl e \<Rightarrow> Inl e
          | Inr rest \<Rightarrow>
             (case UnmarshalSRLocalBlockTLV rest of
                Inl e \<Rightarrow> Inl e
              | Inr tlvs \<Rightarrow> Inr \<lparr>Flags = flags, TLV = tlvs\<rparr>)))"

section \<open>BGP Open message (package bgp)\<close>

definition BGPMinOpenMessageLength :: nat where
  "BGPMinOpenMessageLength = 29"

text \<open>
  Modelled from the spec: the declaration of \<open>InformationalTLV\<close> is not among the source
  files. The source reads its fields \<open>Type\<close> (compared with 2 and 8) and \<open>Value\<close> (a
  byte slice); the specification's TLV Record is \<open>{type, length, value}\<close>.
\<close>

record InformationalTLV =
  Type :: byte
  Length :: byte
  Value :: "byte list"

text \<open>
  \<open>OpenMessage\<close>: \<open>Length\<close> and \<open>HoldTime\<close> are \<open>int16\<close>, \<open>MyAS\<close> is \<open>uint16\<close>; all
  three are 16-bit words (\<open>sint\<close> reads the signed ones). A nil slice of optional
  parameters is the empty list.
\<close>

record OpenMessage =
  Length :: "16 word"
  Type :: byte
  Version :: byte
  MyAS :: "16 word"
  HoldTime :: "16 word"
  BGPID :: "byte list"
  OptParamLen :: byte
  OptionalParameters :: "InformationalTLV list"

text \<open>
  \<open>UnmarshalBGPOpenMessage\<close>. The function \<open>UnmarshalBGPTLV\<close> is not among the source
  files and is the first argument. The cursor \<open>p\<close> takes the values 0, 2, 3, 4, 6, 8,
  12 and 13, written out at each read.
\<close>

definition UnmarshalBGPOpenMessage ::
  "(byte list \<Rightarrow> failure + InformationalTLV list) \<Rightarrow> byte list \<Rightarrow> failure + OpenMessage" where
  "UnmarshalBGPOpenMessage UnmarshalBGPTLV b =
     (if length b < BGPMinOpenMessageLength then Inl (Error (OpenLengthInvalid (length b)))
      else
       (case slice b 0 2 of Inl e \<Rightarrow> Inl e | Inr s0 \<Rightarrow>
       (case BigEndian_Uint16 s0 of Inl e \<Rightarrow> Inl e | Inr len \<Rightarrow>
       (case index b 2 of Inl e \<Rightarrow> Inl e | Inr ty \<Rightarrow>
        if ty \<noteq> 1 then Inl (Error (InvalidMessageType ty)) else
       (case index b 3 of Inl e \<Rightarrow> Inl e | Inr ver \<Rightarrow>
        if ver \<noteq> 4 then Inl (Error (InvalidMessageVersion ver)) else
       (case slice b 4 6 of Inl e \<Rightarrow> Inl e | Inr s4 \<Rightarrow>
       (case BigEndian_Uint16 s4 of Inl e \<Rightarrow> Inl e | Inr myas \<Rightarrow>
       (case slice b 6 8 of Inl e \<Rightarrow> Inl e | Inr s6 \<Rightarrow>
       (case BigEndian_Uint16 s6 of Inl e \<Rightarrow> Inl e | Inr hold \<Rightarrow>
       (case slice b 8 12 of Inl e \<Rightarrow> Inl e | Inr s8 \<Rightarrow>
       (case index b 12 of Inl e \<Rightarrow> Inl e | Inr opl \<Rightarrow>
        (let m = \<lparr>OpenMessage.Length = len, OpenMessage.Type = ty, Version = ver,
                  MyAS = myas, HoldTime = hold, BGPID = copy [0, 0, 0, 0] s8,
                  OptParamLen = opl, OptionalParameters = []\<rparr>
         in if opl \<noteq> 0 then
              (case slice b 13 (13 + unat opl) of Inl e \<Rightarrow> Inl e | Inr region \<Rightarrow>
              (case UnmarshalBGPTLV region of Inl e \<Rightarrow> Inl e
               | Inr params \<Rightarrow> Inr (m\<lparr>OptionalParameters := params\<rparr>)))
            else Inr m))))))))))))"

text \<open>
  Modelled from the spec: the declaration of \<open>Capability\<close> is not among the source files.
  The source indexes it by a capability code (\<open>caps[65]\<close>, with the presence flag
  \<open>ok\<close>) and reads the field \<open>Value\<close> of the entry; the specification's capability
  set is a mapping from capability code to raw value bytes.
\<close>

type_synonym Capability = "byte \<rightharpoonup> byte list"

text \<open>
  \<open>GetCapabilities\<close>, \<open>Is4BytesASCapable\<close> and \<open>IsMultiLabelCapable\<close> range over
  \<open>o.OptionalParameters\<close>; the recursion is over the parameters still to visit. The
  function \<open>UnmarshalBGPCapability\<close> is not among the source files and is the first
  argument. In \<open>Is4BytesASCapable\<close> a returned error means \<open>continue\<close>, a missing code
  65 means \<open>return 0, false\<close>, and \<open>int32(binary.BigEndian.Uint32(cap.Value))\<close> keeps
  the 32 bits (\<open>sint\<close> reads them as \<open>int32\<close>).
\<close>

fun GetCapabilities_loop ::
  "(byte list \<Rightarrow> failure + Capability) \<Rightarrow> InformationalTLV list \<Rightarrow> failure + Capability" where
  "GetCapabilities_loop UnmarshalBGPCapability [] = Inl (Error NotFound)"
| "GetCapabilities_loop UnmarshalBGPCapability (t # ts) =
     (if InformationalTLV.Type t \<noteq> 2 then GetCapabilities_loop UnmarshalBGPCapability ts
      else UnmarshalBGPCapability (InformationalTLV.Value t))"

definition GetCapabilities ::
  "(byte list \<Rightarrow> failure + Capability) \<Rightarrow> OpenMessage \<Rightarrow> failure + Capability" where
  "GetCapabilities UnmarshalBGPCapability m =
     GetCapabilities_loop UnmarshalBGPCapability (OptionalParameters m)"

fun Is4BytesASCapable_loop ::
  "(byte list \<Rightarrow> failure + Capability) \<Rightarrow> InformationalTLV list \<Rightarrow> failure + 32 word \<times> bool" where
  "Is4BytesASCapable_loop UnmarshalBGPCapability [] = Inr (0, False)"
| "Is4BytesASCapable_loop UnmarshalBGPCapability (t # ts) =
     (if InformationalTLV.Type t \<noteq> 2 then Is4BytesASCapable_loop UnmarshalBGPCapability ts
      else
       (case UnmarshalBGPCapability (InformationalTLV.Value t) of
          Inl (Error e) \<Rightarrow> Is4BytesASCapable_loop UnmarshalBGPCapability ts
        | Inl (Panic q) \<Rightarrow> Inl (Panic q)
        | Inr caps \<Rightarrow>
           (case caps 65 of
              None \<Rightarrow> Inr (0, False)
            | Some cap \<Rightarrow>
               (case BigEndian_Uint32 cap of Inl e \<Rightarrow> Inl e | Inr v \<Rightarrow> Inr (v, True)))))"

definition Is4BytesASCapable ::
  "(byte list \<Rightarrow> failure + Capability) \<Rightarrow> OpenMessage \<Rightarrow> failure + 32 word \<times> bool" where
  "Is4BytesASCapable UnmarshalBGPCapability m =
     Is4BytesASCapable_loop UnmarshalBGPCapability (OptionalParameters m)"

fun IsMultiLabelCapable_loop :: "InformationalTLV list \<Rightarrow> bool" where
  "IsMultiLabelCapable_loop [] = False"
| "IsMultiLabelCapable_loop (t # ts) =
     (if InformationalTLV.Type t = 8 then True else IsMultiLabelCapable_loop ts)"

definition IsMultiLabelCapable :: "OpenMessage \<Rightarrow> bool" where
  "IsMultiLabelCapable m = IsMultiLabelCapable_loop (OptionalParameters m)"

section \<open>The TLV scanner of the specification\<close>

text \<open>
  Modelled from the spec: \<open>UnmarshalBGPTLV\<close>, \<open>UnmarshalSRLocalBlockTLV\<close> and
  \<open>UnmarshalBGPCapability\<close> are called by the decoders above and are not among the source
  files. The specification's TLV Scanner (section 4.2) reads a type byte, a length byte
  and that many value bytes, until no byte remains; it fails with \<open>TruncatedBuffer\<close>
  when the header is cut and with \<open>MalformedTLV\<close> when the declared length passes the end
  of the region; records keep their order and duplicates. The capability set (sections 3
  and 4.3) is the mapping from code to value bytes of the records scanned in a capability
  parameter's value, \<open>MalformedCapability\<close> when that scan fails; a later record of the
  same code replaces an earlier one. These definitions instantiate the decoders' function
  arguments at concrete inputs.
\<close>

fun TLV_scan :: "byte list \<Rightarrow> failure + InformationalTLV list" where
  "TLV_scan [] = Inr []"
| "TLV_scan [t] = Inl (Error (TruncatedBuffer 1 0))"
| "TLV_scan (t # l # rest) =
     (if length rest < unat l then Inl (Error (MalformedTLV (unat l) (length rest)))
      else
       (case TLV_scan (drop (unat l) rest) of
          Inl e \<Rightarrow> Inl e
        | Inr records \<Rightarrow>
            Inr (\<lparr>InformationalTLV.Type = t, Length = l, Value = take (unat l) rest\<rparr> # records)))"

definition capability_set :: "InformationalTLV list \<Rightarrow> Capability" where
  "capability_set records =
     fold (\<lambda>r caps. caps(InformationalTLV.Type r \<mapsto> InformationalTLV.Value r)) records Map.empty"

definition UnmarshalBGPCapability :: "byte list \<Rightarrow> failure + Capability" where
  "UnmarshalBGPCapability b =
     (case TLV_scan b of
        Inl e \<Rightarrow> Inl (Error MalformedCapability)
      | Inr records \<Rightarrow> Inr (capability_set records))"

section \<open>The input buffer as shared memory\<close>

text \<open>
  A Go slice is a view of a backing array that the caller shares with the callee, so a
  decoder could write into the caller's buffer. To state that it does not, the decoders are
  written a second time over an explicit store: the bytes of the caller's buffer. Every
  statement of the source that touches \<open>b\<close> becomes a step from store to store; objects
  the decoder allocates itself (\<open>tvs\<close>, \<open>m\<close>, \<open>m.BGPID\<close>, \<open>lb\<close>) alias nothing of the
  caller's and stay values. The source has three kinds of access to \<open>b\<close>:
  \<^item> \<open>b[p]\<close> as an operand: \<open>load\<close>;
  \<^item> \<open>binary.BigEndian.Uint16(b[lo:hi])\<close> and \<open>copy(m.BGPID, b[lo:hi])\<close>, which read the
    bytes of the sub-slice (the copy writes into \<open>m.BGPID\<close>): \<open>load_bytes\<close>;
  \<^item> \<open>b[lo:hi]\<close> passed to a sub-decoder: the bounds check yields the \<open>window\<close>
    \<open>(lo, hi)\<close>, and the sub-decoder receives it together with the store, which it may
    change.
  There is no assignment to an element of \<open>b\<close> and no \<open>copy\<close> or \<open>append\<close> with \<open>b\<close> as
  destination in the source, so no step below writes. The logging call
  \<open>glog ... tools.MessageHex(b)\<close> belongs to external packages and is left out.
\<close>

type_synonym store = "byte list"

definition load :: "nat \<Rightarrow> store \<Rightarrow> (failure + byte) \<times> store" where
  "load p s = (index s p, s)"

definition load_bytes :: "nat \<Rightarrow> nat \<Rightarrow> store \<Rightarrow> (failure + byte list) \<times> store" where
  "load_bytes lo hi s = (slice s lo hi, s)"

definition window :: "nat \<Rightarrow> nat \<Rightarrow> store \<Rightarrow> failure + nat \<times> nat" where
  "window lo hi s =
     (if length s < hi then Inl (Panic (SliceBoundsOutOfRange hi (length s)))
      else if hi < lo then Inl (Panic (SliceBoundsOutOfRange lo hi))
      else Inr (lo, hi))"

text \<open>
  \<open>view w s\<close> is the contents of a window. \<open>reading f\<close> is a sub-decoder that computes
  \<open>f\<close> on the contents of its window and leaves the store as it is.
\<close>

definition view :: "nat \<times> nat \<Rightarrow> store \<Rightarrow> byte list" where
  "view w s = take (snd w - fst w) (drop (fst w) s)"

definition reading :: "(byte list \<Rightarrow> failure + 'a) \<Rightarrow> nat \<times> nat \<Rightarrow> store \<Rightarrow> (failure + 'a) \<times> store" where
  "reading f w s = (f (view w s), s)"

function MSDTV_loop_st :: "nat \<Rightarrow> MSDTV list \<Rightarrow> store \<Rightarrow> (failure + MSDTV list) \<times> store" where
  "MSDTV_loop_st p tvs s =
     (if p < length s then
        (case load p s of
           (Inl e, s1) \<Rightarrow> (Inl e, s1)
         | (Inr t, s1) \<Rightarrow>
            (case load (p + 1) s1 of
               (Inl e, s2) \<Rightarrow> (Inl e, s2)
             | (Inr v, s2) \<Rightarrow>
                 MSDTV_loop_st (p + 2) (tvs @ [\<lparr>MSDTV.Type = t, MSDTV.Value = v\<rparr>]) s2))
      else (Inr tvs, s))"
  by pat_completeness auto
termination
  by (relation "measure (\<lambda>(p, tvs, s). length s - p)") (auto simp add: load_def)

declare MSDTV_loop_st.simps [simp del]

definition UnmarshalMSDTV_st :: "store \<Rightarrow> (failure + MSDTV list) \<times> store" where
  "UnmarshalMSDTV_st s = MSDTV_loop_st 0 [] s"

definition UnmarshalSRLocalBlock_st ::
  "(nat \<times> nat \<Rightarrow> store \<Rightarrow> (failure + 'tlv list) \<times> store) \<Rightarrow> store \<Rightarrow>
     (failure + 'tlv LocalBlock) \<times> store" where
  "UnmarshalSRLocalBlock_st UnmarshalSRLocalBlockTLV s =
     (case load 0 s of
        (Inl e, s1) \<Rightarrow> (Inl e, s1)
      | (Inr flags, s1) \<Rightarrow>
         (case window 2 (length s1) s1 of
            Inl e \<Rightarrow> (Inl e, s1)
          | Inr w \<Rightarrow>
             (case UnmarshalSRLocalBlockTLV w s1 of
                (Inl e, s2) \<Rightarrow> (Inl e, s2)
              | (Inr tlvs, s2) \<Rightarrow> (Inr \<lparr>Flags = flags, TLV = tlvs\<rparr>, s2))))"

definition UnmarshalBGPOpenMessage_st ::
  "(nat \<times> nat \<Rightarrow> store \<Rightarrow> (failure + InformationalTLV list) \<times> store) \<Rightarrow> store \<Rightarrow>
     (failure + OpenMessage) \<times> store" where
  "UnmarshalBGPOpenMessage_st UnmarshalBGPTLV s =
     (if length s < BGPMinOpenMessageLength then (Inl (Error (OpenLengthInvalid (length s))), s)
      else
       (case load_bytes 0 2 s of (Inl e, s1) \<Rightarrow> (Inl e, s1) | (Inr v0, s1) \<Rightarrow>
       (case BigEndian_Uint16 v0 of Inl e \<Rightarrow> (Inl e, s1) | Inr len \<Rightarrow>
       (case load 2 s1 of (Inl e, s2) \<Rightarrow> (Inl e, s2) | (Inr ty, s2) \<Rightarrow>
        if ty \<noteq> 1 then (Inl (Error (InvalidMessageType ty)), s2) else
       (case load 3 s2 of (Inl e, s3) \<Rightarrow> (Inl e, s3) | (Inr ver, s3) \<Rightarrow>
        if ver \<noteq> 4 then (Inl (Error (InvalidMessageVersion ver)), s3) else
       (case load_bytes 4 6 s3 of (Inl e, s4) \<Rightarrow> (Inl e, s4) | (Inr v4, s4) \<Rightarrow>
       (case BigEndian_Uint16 v4 of Inl e \<Rightarrow> (Inl e, s4) | Inr myas \<Rightarrow>
       (case load_bytes 6 8 s4 of (Inl e, s5) \<Rightarrow> (Inl e, s5) | (Inr v6, s5) \<Rightarrow>
       (case BigEndian_Uint16 v6 of Inl e \<Rightarrow> (Inl e, s5) | Inr hold \<Rightarrow>
       (case load_bytes 8 12 s5 of (Inl e, s6) \<Rightarrow> (Inl e, s6) | (Inr v8, s6) \<Rightarrow>
       (case load 12 s6 of (Inl e, s7) \<Rightarrow> (Inl e, s7) | (Inr opl, s7) \<Rightarrow>
        (let m = \<lparr>OpenMessage.Length = len, OpenMessage.Type = ty, Version = ver,
                  MyAS = myas, HoldTime = hold, BGPID = copy [0, 0, 0, 0] v8,
                  OptParamLen = opl, OptionalParameters = []\<rparr>
         in if opl \<noteq> 0 then
              (case window 13 (13 + unat opl) s7 of Inl e \<Rightarrow> (Inl e, s7) | Inr w \<Rightarrow>
              (case UnmarshalBGPTLV w s7 of (Inl e, s8) \<Rightarrow> (Inl e, s8)
               | (Inr params, s8) \<Rightarrow> (Inr (m\<lparr>OptionalParameters := params\<rparr>), s8)))
            else (Inr m, s7)))))))))))))"

section \<open>Auxiliary definitions for the statements\<close>

text \<open>
  \<open>fixed_header b\<close> is the message the thirteen fixed bytes of \<open>b\<close> determine, with no
  optional parameters: the value of \<open>m\<close> in \<open>UnmarshalBGPOpenMessage\<close> after the read of
  \<open>OptParamLen\<close>.
\<close>

definition fixed_header :: "byte list \<Rightarrow> OpenMessage" where
  "fixed_header b =
     \<lparr>OpenMessage.Length = be16 (b ! 0) (b ! 1), OpenMessage.Type = b ! 2, Version = b ! 3,
      MyAS = be16 (b ! 4) (b ! 5), HoldTime = be16 (b ! 6) (b ! 7),
      BGPID = take 4 (drop 8 b), OptParamLen = b ! 12, OptionalParameters = []\<rparr>"

text \<open>
  Example buffers. \<open>open_buf ty ver opl rest\<close> is a session-open buffer with the given
  type, version and optional-parameter-length bytes (Length 29, AS 65000, hold time 90,
  identifier 10.0.0.1) followed by \<open>rest\<close>. \<open>two_capabilities\<close> is a 16-byte region of
  two optional parameters of type 2: the first wraps capability 1 (multiprotocol), the
  second capability 65 with the value \<open>00 00 00 01\<close>.
\<close>

definition open_buf :: "byte \<Rightarrow> byte \<Rightarrow> byte \<Rightarrow> byte list \<Rightarrow> byte list" where
  "open_buf ty ver opl rest = [0, 29, ty, ver, 0xFD, 0xE8, 0, 90, 10, 0, 0, 1, opl] @ rest"

definition two_capabilities :: "byte list" where
  "two_capabilities = [2, 6, 1, 4, 0, 1, 0, 1, 2, 6, 65, 4, 0, 0, 0, 1]"

text \<open>
  Example optional parameters: two capability parameters (type 2) wrapping capability 1
  and capability 65 with the value \<open>00 00 00 01\<close> (the two records of
  \<open>two_capabilities\<close>), a capability parameter whose inner TLV is cut short, and a
  parameter of type 8. \<open>open_with params\<close> is the session-open message of the example
  header carrying \<open>params\<close>.
\<close>

definition param_multiprotocol :: InformationalTLV where
  "param_multiprotocol = \<lparr>InformationalTLV.Type = 2, Length = 6, Value = [1, 4, 0, 1, 0, 1]\<rparr>"

definition param_four_byte_as :: InformationalTLV where
  "param_four_byte_as = \<lparr>InformationalTLV.Type = 2, Length = 6, Value = [65, 4, 0, 0, 0, 1]\<rparr>"

definition param_truncated :: InformationalTLV where
  "param_truncated = \<lparr>InformationalTLV.Type = 2, Length = 3, Value = [65, 4, 0]\<rparr>"

definition param_multi_label :: InformationalTLV where
  "param_multi_label = \<lparr>InformationalTLV.Type = 8, Length = 0, Value = []\<rparr>"

definition open_with :: "InformationalTLV list \<Rightarrow> OpenMessage" where
  "open_with params =
     (fixed_header (open_buf 1 4 16 two_capabilities))\<lparr>OptionalParameters := params\<rparr>"

section \<open>Properties of the MSD decoder\<close>

lemma length_pairs: "length (pairs xs) = length xs div 2"
  by (induction xs rule: pairs.induct) auto

lemma nth_pairs:
  "i < length xs div 2 \<Longrightarrow>
     pairs xs ! i = \<lparr>MSDTV.Type = xs ! (2 * i), MSDTV.Value = xs ! (2 * i + 1)\<rparr>"
proof (induction xs arbitrary: i rule: pairs.induct)
  case (1 t v rest)
  then show ?case by (cases i) auto
qed auto

lemma drop_two_steps:
  assumes "p + 1 < length b"
  shows "drop p b = b ! p # b ! (p + 1) # drop (p + 2) b"
proof -
  have "drop p b = b ! p # drop (Suc p) b"
    using assms by (simp add: Cons_nth_drop_Suc)
  also have "drop (Suc p) b = b ! Suc p # drop (Suc (Suc p)) b"
    using assms by (simp add: Cons_nth_drop_Suc)
  finally show ?thesis by simp
qed

lemma MSDTV_loop_result:
  "p \<le> length b \<Longrightarrow>
   MSDTV_loop b p tvs =
     (if even (length b - p) then Inr (tvs @ pairs (drop p b))
      else Inl (Panic (IndexOutOfRange (length b) (length b))))"
proof (induction b p tvs rule: MSDTV_loop.induct)
  case (1 b p tvs)
  show ?case
  proof (cases "p < length b")
    case False
    with "1.prems" show ?thesis by (subst MSDTV_loop.simps) simp
  next
    case True
    note lt = this
    show ?thesis
    proof (cases "p + 1 < length b")
      case False
      with lt have "length b - p = 1" by simp
      with lt False show ?thesis by (subst MSDTV_loop.simps) (simp add: index_def)
    next
      case True
      have ip: "index b p = Inr (b ! p)" using lt by (simp add: index_def)
      have iq: "index b (p + 1) = Inr (b ! (p + 1))" using True by (simp add: index_def)
      have le: "p + 2 \<le> length b" using True by simp
      have par: "even (length b - (p + 2)) = even (length b - p)" using True by auto
      have step: "MSDTV_loop b p tvs =
          MSDTV_loop b (p + 2) (tvs @ [\<lparr>MSDTV.Type = b ! p, MSDTV.Value = b ! (p + 1)\<rparr>])"
        using lt ip iq by (subst MSDTV_loop.simps) simp
      show ?thesis
        unfolding step "1.IH" [OF lt ip iq le] par
        by (simp add: drop_two_steps [OF True])
    qed
  qed
qed

text \<open>
  C3. For a buffer of even length \<open>2n\<close>, \<open>UnmarshalMSDTV\<close> returns no error and exactly
  \<open>n\<close> tuples in buffer order; tuple \<open>i\<close> has Type \<open>b[2i]\<close> and Value \<open>b[2i+1]\<close>, so the
  whole buffer is consumed two bytes at a time.
\<close>

theorem UnmarshalMSDTV_even:
  assumes "even (length b)"
  shows "\<exists>tvs. UnmarshalMSDTV b = Inr tvs \<and> length tvs = length b div 2 \<and>
           (\<forall>i < length tvs. MSDTV.Type (tvs ! i) = b ! (2 * i) \<and>
                              MSDTV.Value (tvs ! i) = b ! (2 * i + 1))"
proof -
  have "UnmarshalMSDTV b = Inr (pairs b)"
    using assms by (simp add: UnmarshalMSDTV_def MSDTV_loop_result)
  then show ?thesis
    by (simp add: length_pairs nth_pairs)
qed

theorem UnmarshalMSDTV_even_witness:
  "even (length [1, 20, 2, 30 :: byte]) \<and>
   UnmarshalMSDTV [1, 20, 2, 30] =
     Inr [\<lparr>MSDTV.Type = 1, MSDTV.Value = 20\<rparr>, \<lparr>MSDTV.Type = 2, MSDTV.Value = 30\<rparr>]"
proof -
  have ev: "even (length [1, 20, 2, 30 :: byte])" by simp
  from UnmarshalMSDTV_even [OF ev] obtain tvs where
    r: "UnmarshalMSDTV [1, 20, 2, 30] = Inr tvs" and
    n: "length tvs = length [1, 20, 2, 30 :: byte] div 2" and
    e: "\<forall>i < length tvs. MSDTV.Type (tvs ! i) = [1, 20, 2, 30] ! (2 * i) \<and>
                          MSDTV.Value (tvs ! i) = [1, 20, 2, 30] ! (2 * i + 1)"
    by blast
  from n have n2: "length tvs = 2" by simp
  then obtain x y where xy: "tvs = [x, y]"
    by (cases tvs; cases "tl tvs") auto
  from e n2 have "MSDTV.Type (tvs ! 0) = 1 \<and> MSDTV.Value (tvs ! 0) = 20"
    by (auto dest: spec [of _ 0])
  moreover from e n2 have "MSDTV.Type (tvs ! 1) = 2 \<and> MSDTV.Value (tvs ! 1) = 30"
    by (auto dest: spec [of _ 1])
  ultimately have "x = \<lparr>MSDTV.Type = 1, MSDTV.Value = 20\<rparr>" "y = \<lparr>MSDTV.Type = 2, MSDTV.Value = 30\<rparr>"
    using xy by auto
  with r xy ev show ?thesis by simp
qed

lemma UnmarshalMSDTV_odd:
  "odd (length b) \<Longrightarrow> UnmarshalMSDTV b = Inl (Panic (IndexOutOfRange (length b) (length b)))"
  by (simp add: UnmarshalMSDTV_def MSDTV_loop_result)

text \<open>
  C2. On a buffer of odd length the loop reaches \<open>p = len(b) - 1\<close>, reads \<open>b[p]\<close>,
  increments and evaluates \<open>b[len(b)]\<close>: the runtime panics with an index out of range.
  The function does not return an error value. Evaluated at the one-byte buffer \<open>[1]\<close>.
\<close>

theorem UnmarshalMSDTV_odd_panics:
  "UnmarshalMSDTV [1] = Inl (Panic (IndexOutOfRange 1 1))"
  using UnmarshalMSDTV_odd [of "[1]"] by simp

section \<open>Big-endian values\<close>

text \<open>\<open>be16 hi lo\<close> is the 16-bit value \<open>256 * hi + lo\<close>.\<close>

lemma be16_cat: "be16 hi lo = word_cat hi lo"
  unfolding be16_def
  by (rule bit_word_eqI) (auto simp add: bit_simps dest: bit_imp_le_length)

lemma uint_be16: "uint (be16 hi lo) = 256 * uint hi + uint lo"
proof -
  have "uint (be16 hi lo) = take_bit 16 (concat_bit 8 (uint lo) (uint hi))"
    unfolding be16_cat word_cat_eq' by (simp add: uint_word_of_int_eq)
  also have "\<dots> = concat_bit 8 (uint lo) (take_bit 8 (uint hi))"
    by (simp add: take_bit_concat_bit_eq)
  also have "\<dots> = take_bit 8 (uint lo) + push_bit 8 (take_bit 8 (uint hi))"
    by (simp add: concat_bit_eq)
  also have "take_bit 8 (uint lo) = uint lo"
    using uint_bounded [of lo] by (intro take_bit_int_eq_self) simp_all
  also have "take_bit 8 (uint hi) = uint hi"
    using uint_bounded [of hi] by (intro take_bit_int_eq_self) simp_all
  finally show ?thesis by (simp add: push_bit_eq_mult)
qed

section \<open>Properties of the session-open decoder\<close>

lemma index_in_range: "p < length b \<Longrightarrow> index b p = Inr (b ! p)"
  by (simp add: index_def)

lemma BigEndian_Uint16_field:
  "k + 2 \<le> length b \<Longrightarrow>
     BigEndian_Uint16 (take 2 (drop k b)) = Inr (be16 (b ! k) (b ! (k + 1)))"
  by (simp add: BigEndian_Uint16_def index_def)

lemma copy_same_length: "length dst = length src \<Longrightarrow> copy dst src = src"
  by (simp add: copy_def)

lemma UnmarshalBGPOpenMessage_long:
  assumes "29 \<le> length b"
  shows "UnmarshalBGPOpenMessage tlv b =
     (if b ! 2 \<noteq> 1 then Inl (Error (InvalidMessageType (b ! 2)))
      else if b ! 3 \<noteq> 4 then Inl (Error (InvalidMessageVersion (b ! 3)))
      else if b ! 12 = 0 then Inr (fixed_header b)
      else if length b < 13 + unat (b ! 12)
        then Inl (Panic (SliceBoundsOutOfRange (13 + unat (b ! 12)) (length b)))
      else (case tlv (take (unat (b ! 12)) (drop 13 b)) of
              Inl e \<Rightarrow> Inl e
            | Inr params \<Rightarrow> Inr ((fixed_header b)\<lparr>OptionalParameters := params\<rparr>)))"
proof -
  have f0: "BigEndian_Uint16 (take 2 b) = Inr (be16 (b ! 0) (b ! 1))"
    using assms BigEndian_Uint16_field [of 0 b] by simp
  have f4: "BigEndian_Uint16 (take 2 (drop 4 b)) = Inr (be16 (b ! 4) (b ! 5))"
    using assms BigEndian_Uint16_field [of 4 b] by simp
  have f6: "BigEndian_Uint16 (take 2 (drop 6 b)) = Inr (be16 (b ! 6) (b ! 7))"
    using assms BigEndian_Uint16_field [of 6 b] by simp
  have cp: "copy [0, 0, 0, 0] (take 4 (drop 8 b)) = take 4 (drop 8 b)"
  proof (rule copy_same_length)
    show "length [0, 0, 0, 0 :: byte] = length (take 4 (drop 8 b))" using assms by simp
  qed
  show ?thesis
    using assms
    by (simp add: UnmarshalBGPOpenMessage_def BGPMinOpenMessageLength_def
        index_in_range slice_def f0 f4 f6 cp fixed_header_def Let_def
        split: sum.splits)
qed

text \<open>
  C4. A buffer shorter than 29 bytes (\<open>BGPMinOpenMessageLength\<close>) fails with the
  length error carrying \<open>len(b)\<close>. The result is a function of the length alone,
  whatever the bytes are and whatever \<open>UnmarshalBGPTLV\<close> is: the length check is the
  first statement and returns before any field is read or parsed.
\<close>

theorem UnmarshalBGPOpenMessage_short:
  "length b < 29 \<Longrightarrow> UnmarshalBGPOpenMessage tlv b = Inl (Error (OpenLengthInvalid (length b)))"
  by (simp add: UnmarshalBGPOpenMessage_def BGPMinOpenMessageLength_def)

theorem UnmarshalBGPOpenMessage_short_witness:
  "length [0, 19, 1, 4 :: byte] < 29 \<and>
   UnmarshalBGPOpenMessage TLV_scan [0, 19, 1, 4] = Inl (Error (OpenLengthInvalid 4))"
  using UnmarshalBGPOpenMessage_short [of "[0, 19, 1, 4]" TLV_scan] by simp

text \<open>
  C5. For a buffer of at least 29 bytes: a type byte (offset 2) other than 1 fails with
  the invalid-message-type error carrying that byte; with type byte 1, a version byte
  (offset 3) other than 4 fails with the invalid-message-version error carrying that
  byte.
\<close>

theorem UnmarshalBGPOpenMessage_type_version:
  assumes "29 \<le> length b"
  shows "(b ! 2 \<noteq> 1 \<longrightarrow>
            UnmarshalBGPOpenMessage tlv b = Inl (Error (InvalidMessageType (b ! 2)))) \<and>
         (b ! 2 = 1 \<and> b ! 3 \<noteq> 4 \<longrightarrow>
            UnmarshalBGPOpenMessage tlv b = Inl (Error (InvalidMessageVersion (b ! 3))))"
  by (simp add: UnmarshalBGPOpenMessage_long [OF assms])

theorem UnmarshalBGPOpenMessage_type_version_witness:
  "29 \<le> length (open_buf 3 4 16 two_capabilities) \<and>
   open_buf 3 4 16 two_capabilities ! 2 \<noteq> 1 \<and>
   UnmarshalBGPOpenMessage TLV_scan (open_buf 3 4 16 two_capabilities) =
     Inl (Error (InvalidMessageType 3)) \<and>
   29 \<le> length (open_buf 1 5 16 two_capabilities) \<and>
   open_buf 1 5 16 two_capabilities ! 2 = 1 \<and>
   open_buf 1 5 16 two_capabilities ! 3 \<noteq> 4 \<and>
   UnmarshalBGPOpenMessage TLV_scan (open_buf 1 5 16 two_capabilities) =
     Inl (Error (InvalidMessageVersion 5))"
  using UnmarshalBGPOpenMessage_type_version [of "open_buf 3 4 16 two_capabilities" TLV_scan]
    UnmarshalBGPOpenMessage_type_version [of "open_buf 1 5 16 two_capabilities" TLV_scan]
  by (simp add: open_buf_def two_capabilities_def)

text \<open>
  C10. For a buffer of at least 29 bytes with type byte 1 and version byte 4 whose declared
  optional-parameter region lies in the buffer and decodes, decoding succeeds whatever the
  two bytes \<open>x\<close>, \<open>y\<close> of the Length header are, and the result's \<open>Length\<close> is their
  big-endian value \<open>256 * x + y\<close>: the field is stored as read and never compared with
  \<open>len(b)\<close>.
\<close>

theorem UnmarshalBGPOpenMessage_ignores_Length:
  assumes "29 \<le> length b" and "b ! 2 = 1" and "b ! 3 = 4"
    and "13 + unat (b ! 12) \<le> length b"
    and "b ! 12 \<noteq> 0 \<longrightarrow> tlv (take (unat (b ! 12)) (drop 13 b)) = Inr params"
  shows "\<exists>m. UnmarshalBGPOpenMessage tlv (b[0 := x, 1 := y]) = Inr m \<and>
              OpenMessage.Length m = be16 x y \<and>
              uint (OpenMessage.Length m) = 256 * uint x + uint y"
proof -
  define c where "c = b[0 := x, 1 := y]"
  have len: "29 \<le> length c" using assms(1) by (simp add: c_def)
  have ne: "b \<noteq> []" using assms(1) by auto
  have nth: "c ! 0 = x" "c ! 1 = y" "c ! 2 = 1" "c ! 3 = 4" "c ! 12 = b ! 12"
    using assms(1-3) ne by (simp_all add: c_def)
  have dr: "drop 13 c = drop 13 b" by (simp add: c_def)
  have lc: "length c = length b" by (simp add: c_def)
  have hd: "OpenMessage.Length (fixed_header c) = be16 x y"
    unfolding fixed_header_def nth by simp
  have hu: "uint (OpenMessage.Length (fixed_header c)) = 256 * uint x + uint y"
    unfolding hd by (rule uint_be16)
  note eq = UnmarshalBGPOpenMessage_long [OF len, of tlv, unfolded nth dr lc]
  show ?thesis
  proof (cases "b ! 12 = 0")
    case True
    then have "UnmarshalBGPOpenMessage tlv c = Inr (fixed_header c)"
      using eq by simp
    with hd hu show ?thesis unfolding c_def by blast
  next
    case False
    then have "UnmarshalBGPOpenMessage tlv c =
        Inr ((fixed_header c)\<lparr>OptionalParameters := params\<rparr>)"
      using eq assms(4,5) by simp
    moreover have "OpenMessage.Length ((fixed_header c)\<lparr>OptionalParameters := params\<rparr>) = be16 x y"
      using hd by simp
    moreover have "uint (OpenMessage.Length ((fixed_header c)\<lparr>OptionalParameters := params\<rparr>)) =
        256 * uint x + uint y"
      using hu by simp
    ultimately show ?thesis unfolding c_def by blast
  qed
qed

lemma TLV_scan_two:
  "TLV_scan two_capabilities =
     Inr [\<lparr>InformationalTLV.Type = 2, Length = 6, Value = [1, 4, 0, 1, 0, 1]\<rparr>,
          \<lparr>InformationalTLV.Type = 2, Length = 6, Value = [65, 4, 0, 0, 0, 1]\<rparr>]"
  by (simp add: two_capabilities_def)

theorem UnmarshalBGPOpenMessage_ignores_Length_witness:
  "29 \<le> length (open_buf 1 4 16 two_capabilities) \<and>
   open_buf 1 4 16 two_capabilities ! 2 = 1 \<and>
   open_buf 1 4 16 two_capabilities ! 3 = 4 \<and>
   13 + unat (open_buf 1 4 16 two_capabilities ! 12) \<le> length (open_buf 1 4 16 two_capabilities) \<and>
   (\<exists>m. UnmarshalBGPOpenMessage TLV_scan ((open_buf 1 4 16 two_capabilities)[0 := 255, 1 := 255]) = Inr m \<and>
        OpenMessage.Length m = be16 255 255 \<and> uint (OpenMessage.Length m) = 65535)"
proof -
  let ?b = "open_buf 1 4 16 two_capabilities"
  have h1: "29 \<le> length ?b" by (simp add: open_buf_def two_capabilities_def)
  have h2: "?b ! 2 = 1" by (simp add: open_buf_def)
  have h3: "?b ! 3 = 4" by (simp add: open_buf_def)
  have h12: "?b ! 12 = 16" by (simp add: open_buf_def)
  have h4: "13 + unat (?b ! 12) \<le> length ?b"
    unfolding h12 by (simp add: open_buf_def two_capabilities_def)
  have reg: "take (unat (?b ! 12)) (drop 13 ?b) = two_capabilities"
    unfolding h12 by (simp add: open_buf_def two_capabilities_def)
  have h5: "?b ! 12 \<noteq> 0 \<longrightarrow> TLV_scan (take (unat (?b ! 12)) (drop 13 ?b)) =
      Inr [\<lparr>InformationalTLV.Type = 2, Length = 6, Value = [1, 4, 0, 1, 0, 1]\<rparr>,
          \<lparr>InformationalTLV.Type = 2, Length = 6, Value = [65, 4, 0, 0, 0, 1]\<rparr>]"
    unfolding reg by (simp add: TLV_scan_two)
  from UnmarshalBGPOpenMessage_ignores_Length
         [where b = "?b" and tlv = TLV_scan and x = 255 and y = 255, OF h1 h2 h3 h4 h5]
       h1 h2 h3 h4
  show ?thesis by auto
qed

section \<open>Properties of the local-block decoder\<close>

lemma UnmarshalSRLocalBlock_long:
  assumes "2 \<le> length b"
  shows "UnmarshalSRLocalBlock lbtlv b =
     (case lbtlv (drop 2 b) of
        Inl e \<Rightarrow> Inl e
      | Inr tlvs \<Rightarrow> Inr \<lparr>Flags = b ! 0, TLV = tlvs\<rparr>)"
proof -
  have "b \<noteq> []" using assms by auto
  then show ?thesis
    using assms
    by (simp add: UnmarshalSRLocalBlock_def index_def slice_from_def slice_def)
qed

text \<open>
  C7. For a buffer of at least two bytes whose bytes from offset 2 on are accepted by
  \<open>UnmarshalSRLocalBlockTLV\<close>, the decoder returns a \<open>LocalBlock\<close> whose \<open>Flags\<close> is byte
  0 and whose \<open>TLV\<close> is the scan of the bytes from offset 2. The reserved byte at offset 1
  is not stored: the record has no field for it and the result is the same whatever value
  \<open>r\<close> that byte has.
\<close>

theorem UnmarshalSRLocalBlock_decodes:
  assumes "2 \<le> length b" and "lbtlv (drop 2 b) = Inr tlvs"
  shows "UnmarshalSRLocalBlock lbtlv b = Inr \<lparr>Flags = b ! 0, TLV = tlvs\<rparr> \<and>
         UnmarshalSRLocalBlock lbtlv (b[1 := r]) = Inr \<lparr>Flags = b ! 0, TLV = tlvs\<rparr>"
proof -
  have "2 \<le> length (b[1 := r])" using assms(1) by simp
  moreover have "drop 2 (b[1 := r]) = drop 2 b" by simp
  moreover have "b[1 := r] ! 0 = b ! 0" by simp
  ultimately show ?thesis
    using assms by (simp add: UnmarshalSRLocalBlock_long)
qed

theorem UnmarshalSRLocalBlock_decodes_witness:
  "2 \<le> length [1, 0, 1, 2, 0xAA, 0xBB, 8, 0 :: byte] \<and>
   UnmarshalSRLocalBlock TLV_scan [1, 0, 1, 2, 0xAA, 0xBB, 8, 0] =
     Inr \<lparr>Flags = 1,
          TLV = [\<lparr>InformationalTLV.Type = 1, Length = 2, Value = [0xAA, 0xBB]\<rparr>,
                 \<lparr>InformationalTLV.Type = 8, Length = 0, Value = []\<rparr>]\<rparr>"
proof -
  have h1: "2 \<le> length [1, 0, 1, 2, 0xAA, 0xBB, 8, 0 :: byte]" by simp
  have h2: "TLV_scan (drop 2 [1, 0, 1, 2, 0xAA, 0xBB, 8, 0]) =
      Inr [\<lparr>InformationalTLV.Type = 1, Length = 2, Value = [0xAA, 0xBB]\<rparr>,
           \<lparr>InformationalTLV.Type = 8, Length = 0, Value = []\<rparr>]"
    by simp
  from UnmarshalSRLocalBlock_decodes
         [where b = "[1, 0, 1, 2, 0xAA, 0xBB, 8, 0]" and lbtlv = TLV_scan, OF h1 h2] h1
  show ?thesis by simp
qed

section \<open>Out-of-range reads\<close>

text \<open>
  C1. The decoders do not return an error when the buffer ends before a fixed field or
  before the end of the declared optional-parameter region: the index or slice expression
  is evaluated unchecked and the runtime panics. Evaluated at
  \<^item> the empty buffer and a one-byte buffer for \<open>UnmarshalSRLocalBlock\<close> (\<open>b[0]\<close> and
    \<open>b[2:]\<close> with no length check at all);
  \<^item> a 29-byte session-open buffer whose optional-parameter-length byte is 255
    (\<open>b[13 : 13+255]\<close> with only the 29-byte minimum checked),
  whatever the sub-decoders \<open>lbtlv\<close> and \<open>tlv\<close> are.
\<close>

theorem decoders_panic_out_of_bounds:
  "UnmarshalSRLocalBlock lbtlv [] = Inl (Panic (IndexOutOfRange 0 0)) \<and>
   UnmarshalSRLocalBlock lbtlv [1] = Inl (Panic (SliceBoundsOutOfRange 2 1)) \<and>
   UnmarshalBGPOpenMessage tlv (open_buf 1 4 255 two_capabilities) =
     Inl (Panic (SliceBoundsOutOfRange 268 29))"
proof -
  have a: "UnmarshalSRLocalBlock lbtlv [] = Inl (Panic (IndexOutOfRange 0 0))"
    by (simp add: UnmarshalSRLocalBlock_def index_def)
  have b: "UnmarshalSRLocalBlock lbtlv [1] = Inl (Panic (SliceBoundsOutOfRange 2 1))"
    by (simp add: UnmarshalSRLocalBlock_def index_def slice_from_def slice_def)
  have len: "29 \<le> length (open_buf 1 4 255 two_capabilities)"
    by (simp add: open_buf_def two_capabilities_def)
  have c: "UnmarshalBGPOpenMessage tlv (open_buf 1 4 255 two_capabilities) =
     Inl (Panic (SliceBoundsOutOfRange 268 29))"
    unfolding UnmarshalBGPOpenMessage_long [OF len]
    by (simp add: open_buf_def two_capabilities_def)
  from a b c show ?thesis by simp
qed

section \<open>Capability queries\<close>

lemma be32_one: "be32 0 0 0 1 = 1"
  by (simp add: be32_def)

lemma BigEndian_Uint32_one: "BigEndian_Uint32 [0, 0, 0, 1] = Inr 1"
  by (simp add: BigEndian_Uint32_def index_def be32_one)

lemma Is4BytesASCapable_loop_skip:
  assumes "\<forall>u \<in> set pre. InformationalTLV.Type u \<noteq> 2 \<or>
             (\<exists>e. ucap (InformationalTLV.Value u) = Inl (Error e))"
  shows "Is4BytesASCapable_loop ucap (pre @ rest) = Is4BytesASCapable_loop ucap rest"
  using assms by (induction pre) auto

text \<open>
  C6 (as amended). \<open>Is4BytesASCapable\<close> is decided by the first optional parameter of type
  2 whose value \<open>UnmarshalBGPCapability\<close> decodes without error: parameters before it are
  of another type or fail to decode (\<open>continue\<close>). If that parameter's capability mapping
  holds code 65 with the value \<open>00 00 00 01\<close> the result is \<open>(1, true)\<close>; if it lacks code
  65 the result is \<open>(0, false)\<close>, whatever the parameters after it hold.
\<close>

theorem Is4BytesASCapable_first_decodable:
  assumes "OptionalParameters m = pre @ t # post"
    and "\<forall>u \<in> set pre. InformationalTLV.Type u \<noteq> 2 \<or>
           (\<exists>e. ucap (InformationalTLV.Value u) = Inl (Error e))"
    and "InformationalTLV.Type t = 2"
    and "ucap (InformationalTLV.Value t) = Inr caps"
  shows "(caps 65 = Some [0, 0, 0, 1] \<longrightarrow> Is4BytesASCapable ucap m = Inr (1, True)) \<and>
         (caps 65 = None \<longrightarrow> Is4BytesASCapable ucap m = Inr (0, False))"
proof -
  have "Is4BytesASCapable ucap m = Is4BytesASCapable_loop ucap (t # post)"
    unfolding Is4BytesASCapable_def assms(1)
    by (rule Is4BytesASCapable_loop_skip [OF assms(2)])
  then show ?thesis
    using assms(3,4) by (simp add: BigEndian_Uint32_one)
qed

lemma caps_multiprotocol:
  "UnmarshalBGPCapability (InformationalTLV.Value param_multiprotocol) = Inr [1 \<mapsto> [0, 1, 0, 1]]"
  by (simp add: UnmarshalBGPCapability_def capability_set_def param_multiprotocol_def)

lemma caps_four_byte_as:
  "UnmarshalBGPCapability (InformationalTLV.Value param_four_byte_as) = Inr [65 \<mapsto> [0, 0, 0, 1]]"
  by (simp add: UnmarshalBGPCapability_def capability_set_def param_four_byte_as_def)

lemma caps_truncated:
  "UnmarshalBGPCapability (InformationalTLV.Value param_truncated) = Inl (Error MalformedCapability)"
  by (simp add: UnmarshalBGPCapability_def param_truncated_def)

theorem Is4BytesASCapable_first_decodable_witness:
  "Is4BytesASCapable UnmarshalBGPCapability
     (open_with [param_multi_label, param_truncated, param_four_byte_as, param_multiprotocol]) =
     Inr (1, True) \<and>
   Is4BytesASCapable UnmarshalBGPCapability
     (open_with [param_multi_label, param_multiprotocol, param_four_byte_as]) = Inr (0, False)"
proof -
  let ?m1 = "open_with [param_multi_label, param_truncated, param_four_byte_as, param_multiprotocol]"
  let ?m2 = "open_with [param_multi_label, param_multiprotocol, param_four_byte_as]"
  have p1: "OptionalParameters ?m1 =
      [param_multi_label, param_truncated] @ param_four_byte_as # [param_multiprotocol]"
    by (simp add: open_with_def)
  have s1: "\<forall>u \<in> set [param_multi_label, param_truncated]. InformationalTLV.Type u \<noteq> 2 \<or>
           (\<exists>e. UnmarshalBGPCapability (InformationalTLV.Value u) = Inl (Error e))"
    by (simp add: caps_truncated) (simp add: param_multi_label_def)
  have t1: "InformationalTLV.Type param_four_byte_as = 2"
    by (simp add: param_four_byte_as_def)
  have p2: "OptionalParameters ?m2 =
      [param_multi_label] @ param_multiprotocol # [param_four_byte_as]"
    by (simp add: open_with_def)
  have s2: "\<forall>u \<in> set [param_multi_label]. InformationalTLV.Type u \<noteq> 2 \<or>
           (\<exists>e. UnmarshalBGPCapability (InformationalTLV.Value u) = Inl (Error e))"
    by (simp add: param_multi_label_def)
  have t2: "InformationalTLV.Type param_multiprotocol = 2"
    by (simp add: param_multiprotocol_def)
  from Is4BytesASCapable_first_decodable [OF p1 s1 t1 caps_four_byte_as]
       Is4BytesASCapable_first_decodable [OF p2 s2 t2 caps_multiprotocol]
  show ?thesis by simp
qed

lemma open_two_capabilities:
  "UnmarshalBGPOpenMessage TLV_scan (open_buf 1 4 16 two_capabilities) =
     Inr (open_with [param_multiprotocol, param_four_byte_as])"
proof -
  have len: "29 \<le> length (open_buf 1 4 16 two_capabilities)"
    by (simp add: open_buf_def two_capabilities_def)
  have reg: "take 16 (drop 13 (open_buf 1 4 16 two_capabilities)) = two_capabilities"
    by (simp add: open_buf_def two_capabilities_def)
  have b: "open_buf 1 4 16 two_capabilities ! 2 = 1" "open_buf 1 4 16 two_capabilities ! 3 = 4"
    "open_buf 1 4 16 two_capabilities ! 12 = 16" "length (open_buf 1 4 16 two_capabilities) = 29"
    by (simp_all add: open_buf_def two_capabilities_def)
  show ?thesis
    unfolding UnmarshalBGPOpenMessage_long [OF len] b
    by (simp add: reg TLV_scan_two open_with_def param_multiprotocol_def param_four_byte_as_def)
qed

text \<open>
  C6 as stated fails. The buffer \<open>open_buf 1 4 16 two_capabilities\<close> decodes to a message
  whose second optional parameter is a capability parameter holding code 65 with the value
  \<open>00 00 00 01\<close>, but its first capability parameter decodes and lacks code 65, so the
  loop returns \<open>(0, false)\<close> there and never reaches the second.
\<close>

theorem Is4BytesASCapable_later_capability_counterexample:
  "UnmarshalBGPOpenMessage TLV_scan (open_buf 1 4 16 two_capabilities) =
     Inr (open_with [param_multiprotocol, param_four_byte_as]) \<and>
   OptionalParameters (open_with [param_multiprotocol, param_four_byte_as]) =
     [param_multiprotocol, param_four_byte_as] \<and>
   InformationalTLV.Type param_four_byte_as = 2 \<and>
   UnmarshalBGPCapability (InformationalTLV.Value param_four_byte_as) =
     Inr [65 \<mapsto> [0, 0, 0, 1]] \<and>
   Is4BytesASCapable UnmarshalBGPCapability (open_with [param_multiprotocol, param_four_byte_as]) =
     Inr (0, False) \<and>
   Is4BytesASCapable UnmarshalBGPCapability (open_with [param_multiprotocol, param_four_byte_as]) \<noteq>
     Inr (1, True)"
proof -
  have r: "Is4BytesASCapable UnmarshalBGPCapability
      (open_with [param_multiprotocol, param_four_byte_as]) = Inr (0, False)"
    by (simp add: Is4BytesASCapable_def open_with_def caps_multiprotocol)
       (simp add: param_multiprotocol_def)
  show ?thesis
    by (simp add: open_two_capabilities caps_four_byte_as r)
       (simp add: open_with_def param_four_byte_as_def)
qed

section \<open>What the decoders return\<close>

text \<open>
  C8. On a one-byte buffer \<open>UnmarshalSRLocalBlock\<close> returns neither an object nor an
  error, and neither does \<open>UnmarshalBGPOpenMessage\<close> on a 29-byte buffer whose
  optional-parameter-length byte is 17 (one byte more than the buffer holds): the slice
  expression panics, whatever the sub-decoders are.
\<close>

theorem decoders_return_neither:
  "(\<forall>lb. UnmarshalSRLocalBlock lbtlv [7] \<noteq> Inr lb) \<and>
   (\<forall>e. UnmarshalSRLocalBlock lbtlv [7] \<noteq> Inl (Error e)) \<and>
   (\<forall>m. UnmarshalBGPOpenMessage tlv (open_buf 1 4 17 two_capabilities) \<noteq> Inr m) \<and>
   (\<forall>e. UnmarshalBGPOpenMessage tlv (open_buf 1 4 17 two_capabilities) \<noteq> Inl (Error e))"
proof -
  have a: "UnmarshalSRLocalBlock lbtlv [7] = Inl (Panic (SliceBoundsOutOfRange 2 1))"
    by (simp add: UnmarshalSRLocalBlock_def index_def slice_from_def slice_def)
  have len: "29 \<le> length (open_buf 1 4 17 two_capabilities)"
    by (simp add: open_buf_def two_capabilities_def)
  have c: "UnmarshalBGPOpenMessage tlv (open_buf 1 4 17 two_capabilities) =
     Inl (Panic (SliceBoundsOutOfRange 30 29))"
    unfolding UnmarshalBGPOpenMessage_long [OF len]
    by (simp add: open_buf_def two_capabilities_def)
  show ?thesis unfolding a c by simp
qed

text \<open>
  Where the decoders do return, the object is complete: every field of the result is the
  one the buffer determines, and an error of the sub-decoder is passed on unchanged.
\<close>

lemma UnmarshalSRLocalBlock_outcome:
  assumes "2 \<le> length b"
  shows "(\<exists>tlvs. lbtlv (drop 2 b) = Inr tlvs \<and>
            UnmarshalSRLocalBlock lbtlv b = Inr \<lparr>Flags = b ! 0, TLV = tlvs\<rparr>) \<or>
         (\<exists>f. lbtlv (drop 2 b) = Inl f \<and> UnmarshalSRLocalBlock lbtlv b = Inl f)"
  by (cases "lbtlv (drop 2 b)") (simp_all add: UnmarshalSRLocalBlock_long [OF assms])

lemma UnmarshalBGPOpenMessage_outcome:
  assumes "UnmarshalBGPOpenMessage tlv b = Inr m"
  shows "29 \<le> length b \<and> b ! 2 = 1 \<and> b ! 3 = 4 \<and> 13 + unat (b ! 12) \<le> length b \<and>
         m = (fixed_header b)\<lparr>OptionalParameters := OptionalParameters m\<rparr> \<and>
         (if b ! 12 = 0 then OptionalParameters m = []
          else tlv (take (unat (b ! 12)) (drop 13 b)) = Inr (OptionalParameters m))"
proof -
  have len: "29 \<le> length b"
    using assms
    by (cases "length b < 29")
       (simp_all add: UnmarshalBGPOpenMessage_def BGPMinOpenMessageLength_def)
  show ?thesis
    using assms len unfolding UnmarshalBGPOpenMessage_long [OF len]
    by (auto simp add: fixed_header_def split: if_splits sum.splits)
qed

section \<open>The decoders do not write to the buffer\<close>

text \<open>
  The store-passing decoders compute what the pure ones compute, given sub-decoders that
  only read.
\<close>

lemma MSDTV_loop_st_refines: "MSDTV_loop_st p tvs s = (MSDTV_loop s p tvs, s)"
proof (induction s p tvs rule: MSDTV_loop.induct)
  case (1 b p tvs)
  show ?case
  proof (cases "p < length b")
    case False
    then show ?thesis
      by (subst MSDTV_loop_st.simps, subst MSDTV_loop.simps) simp
  next
    case True
    show ?thesis
    proof (cases "index b p")
      case (Inl e)
      with True show ?thesis
        by (subst MSDTV_loop_st.simps, subst MSDTV_loop.simps) (simp add: load_def)
    next
      case t: (Inr t)
      show ?thesis
      proof (cases "index b (p + 1)")
        case (Inl e)
        with True t show ?thesis
          by (subst MSDTV_loop_st.simps, subst MSDTV_loop.simps) (simp add: load_def)
      next
        case v: (Inr v)
        from True t v "1.IH" [OF True t v] show ?thesis
          by (subst MSDTV_loop_st.simps, subst MSDTV_loop.simps) (simp add: load_def)
      qed
    qed
  qed
qed

lemma UnmarshalMSDTV_st_refines: "UnmarshalMSDTV_st s = (UnmarshalMSDTV s, s)"
  by (simp add: UnmarshalMSDTV_st_def UnmarshalMSDTV_def MSDTV_loop_st_refines)

lemma window_slice:
  "slice s lo hi = (case window lo hi s of Inl e \<Rightarrow> Inl e | Inr w \<Rightarrow> Inr (view w s))"
  by (simp add: slice_def window_def view_def)

lemma UnmarshalSRLocalBlock_st_refines:
  "UnmarshalSRLocalBlock_st (reading f) s = (UnmarshalSRLocalBlock f s, s)"
  by (simp add: UnmarshalSRLocalBlock_st_def UnmarshalSRLocalBlock_def load_def reading_def
      slice_from_def window_slice split: sum.splits)

lemma UnmarshalBGPOpenMessage_st_refines:
  "UnmarshalBGPOpenMessage_st (reading f) s = (UnmarshalBGPOpenMessage f s, s)"
  by (simp add: UnmarshalBGPOpenMessage_st_def UnmarshalBGPOpenMessage_def load_def
      load_bytes_def reading_def window_slice Let_def split: sum.splits)

lemma UnmarshalSRLocalBlock_st_frame:
  assumes "\<And>w s. snd (lbtlv w s) = s"
  shows "snd (UnmarshalSRLocalBlock_st lbtlv s) = s"
proof -
  have "\<And>w r s'. lbtlv w s = (r, s') \<Longrightarrow> s' = s"
    using assms [of _ s] by (metis snd_conv)
  then show ?thesis
    by (auto simp add: UnmarshalSRLocalBlock_st_def load_def split: sum.splits prod.splits)
qed

lemma UnmarshalBGPOpenMessage_st_frame:
  assumes "\<And>w s. snd (tlv w s) = s"
  shows "snd (UnmarshalBGPOpenMessage_st tlv s) = s"
proof -
  have "\<And>w r s'. tlv w s = (r, s') \<Longrightarrow> s' = s"
    using assms [of _ s] by (metis snd_conv)
  then show ?thesis
    by (auto simp add: UnmarshalBGPOpenMessage_st_def load_def load_bytes_def Let_def
        split: sum.splits prod.splits)
qed

text \<open>
  C9. No decoder changes the caller's buffer: the store after the call is the store before
  it, whether the call returns an object, returns an error or panics. \<open>UnmarshalMSDTV\<close>
  calls no sub-decoder. \<open>UnmarshalBGPOpenMessage\<close> and \<open>UnmarshalSRLocalBlock\<close> hand a
  sub-slice of the buffer to \<open>UnmarshalBGPTLV\<close> and \<open>UnmarshalSRLocalBlockTLV\<close>, which are
  not among the source files: the statement holds for every pair of sub-decoders that
  leave the store unchanged.
\<close>

theorem decoders_leave_buffer_unchanged:
  assumes "\<And>w s. snd (tlv w s) = s" and "\<And>w s. snd (lbtlv w s) = s"
  shows "snd (UnmarshalMSDTV_st b) = b \<and>
         snd (UnmarshalBGPOpenMessage_st tlv b) = b \<and>
         snd (UnmarshalSRLocalBlock_st lbtlv b) = b"
  using UnmarshalBGPOpenMessage_st_frame [of tlv b, OF assms(1)]
    UnmarshalSRLocalBlock_st_frame [of lbtlv b, OF assms(2)]
  by (simp add: UnmarshalMSDTV_st_refines)

theorem decoders_leave_buffer_unchanged_witness:
  "snd (UnmarshalMSDTV_st (open_buf 1 4 16 two_capabilities)) =
     open_buf 1 4 16 two_capabilities \<and>
   snd (UnmarshalBGPOpenMessage_st (reading TLV_scan) (open_buf 1 4 16 two_capabilities)) =
     open_buf 1 4 16 two_capabilities \<and>
   snd (UnmarshalSRLocalBlock_st (reading TLV_scan) (open_buf 1 4 16 two_capabilities)) =
     open_buf 1 4 16 two_capabilities"
proof -
  have r: "\<And>w s. snd (reading TLV_scan w s) = s"
    by (simp add: reading_def)
  from decoders_leave_buffer_unchanged
         [where tlv = "reading TLV_scan" and lbtlv = "reading TLV_scan", OF r r]
  show ?thesis by blast
qed

end
